theory Spec2Isabelle
  imports Main "HOL-Library.Word"
begin

section \<open>Option value codecs of \<open>option_types.hh\<close>\<close>

text \<open>
  The header defines, per option type, the overloads \<open>option_to_string\<close>,
  \<open>option_from_string\<close> and \<open>option_add\<close>. The C++ overloads are told apart here by a
  suffix naming the type they are for. The templates over an element type \<open>T\<close> become
  functions that take the element type's own operations as arguments.

  \<^item> \<open>option_from_string\<close> and \<open>option_add\<close> write through a reference and may throw. They
    are modelled as functions from the destination's value before the call to a pair: the
    destination's value after the call, and either the exception thrown (\<open>Inl\<close>) or the
    value returned (\<open>Inr\<close>). The destination after a throw is part of the result, since the
    source mutates in place before it throws.
  \<^item> C++ \<open>int\<close> is a 32-bit word read as two's complement (\<open>sint\<close>); \<open>+=\<close> wraps (the
    overflow itself is undefined in C++). \<open>size_t\<close> is a 64-bit word read unsigned.
  \<^item> The helpers the header calls and does not define (\<open>escape\<close>, \<open>split\<close>, \<open>to_string\<close>,
    \<open>str_to_int\<close>, the \<open>HashMap\<close> container) follow the specification's description of
    them, each marked where it is defined.

  The type names (\<open>option_type_name\<close>), the strongly typed numbers, \<open>LineAndColumn\<close> and
  \<open>DebugFlags\<close> play no part in the properties proved below and are left out.
\<close>

subsection \<open>Exceptions and results\<close>

text \<open>
  Every failure of the header is \<open>throw runtime_error(message)\<close>. \<open>ParseError\<close> stands for
  the exception of the absent \<open>str_to_int\<close>, for which the specification gives a name and
  no message.
\<close>

datatype error = runtime_error string | ParseError

type_synonym 'r result = "error + 'r"

type_synonym cint = "32 word"
type_synonym size_t = "64 word"

subsection \<open>Separators\<close>

text \<open>The escape character (the backslash) and the two separator constants of the header.\<close>

definition backslash :: char where
  "backslash = CHR 0x5C"

definition list_separator :: char where
  "list_separator = CHR '':''"

definition tuple_separator :: char where
  "tuple_separator = CHR ''|''"

subsection \<open>String helpers of \<open>string.hh\<close>\<close>

text \<open>
  Modelled from the spec: \<open>escape\<close> of string.hh, which is not among the sources.
  It returns the input with every occurrence of \<open>sep\<close> or \<open>esc\<close> prefixed by \<open>esc\<close>.
\<close>

fun escape :: "string \<Rightarrow> char \<Rightarrow> char \<Rightarrow> string" where
  "escape [] sep esc = []"
| "escape (c # cs) sep esc =
     (if c = sep \<or> c = esc then esc # c # escape cs sep esc else c # escape cs sep esc)"

text \<open>\<open>cons_head c ps\<close> puts the character \<open>c\<close> in front of the first element of \<open>ps\<close>.\<close>

fun cons_head :: "char \<Rightarrow> string list \<Rightarrow> string list" where
  "cons_head c [] = [[c]]"
| "cons_head c (p # ps) = (c # p) # ps"

text \<open>
  Modelled from the spec: \<open>split\<close> of string.hh, which is not among the sources.
  It scans left to right; \<open>esc\<close> immediately followed by any character stands for that
  character taken literally (the \<open>esc\<close> is consumed), every other \<open>sep\<close> is a boundary.
  The empty string gives a single empty element. An \<open>esc\<close> that ends the input is followed
  by no character and is kept as it is.
\<close>

fun split :: "string \<Rightarrow> char \<Rightarrow> char \<Rightarrow> string list" where
  "split [] sep esc = [[]]"
| "split [c] sep esc = (if c = sep then [[], []] else [[c]])"
| "split (c # d # cs) sep esc =
     (if c = esc then cons_head d (split cs sep esc)
      else if c = sep then [] # split (d # cs) sep esc
      else cons_head c (split (d # cs) sep esc))"

text \<open>
  Modelled from the spec: \<open>to_string\<close> of string.hh on integers, which is not among the
  sources: decimal formatting, with a leading \<open>-\<close> for a negative \<open>int\<close>.
\<close>

definition digit_char :: "nat \<Rightarrow> char" where
  "digit_char d = ''0123456789'' ! d"

fun to_string_nat :: "nat \<Rightarrow> string" where
  "to_string_nat n =
     (if n < 10 then [digit_char n] else to_string_nat (n div 10) @ [digit_char (n mod 10)])"

declare to_string_nat.simps [simp del]

definition to_string_int :: "int \<Rightarrow> string" where
  "to_string_int i = (if i < 0 then CHR ''-'' # to_string_nat (nat (- i)) else to_string_nat (nat i))"

text \<open>
  Modelled from the spec: \<open>str_to_int\<close> of string.hh, which is not among the sources.
  It parses a decimal numeral of the grammar \<open>[-]digit+\<close>, matching the whole string, and
  throws \<open>ParseError\<close> on any other input. It returns a C++ \<open>int\<close>: the value of the
  numeral as a 32-bit word.
\<close>

definition is_digit :: "char \<Rightarrow> bool" where
  "is_digit c = (48 \<le> (of_char c :: nat) \<and> (of_char c :: nat) \<le> 57)"

definition digit_value :: "char \<Rightarrow> nat" where
  "digit_value c = of_char c - 48"

definition parse_digits :: "string \<Rightarrow> nat" where
  "parse_digits ds = foldl (\<lambda>acc c. acc * 10 + digit_value c) 0 ds"

definition str_to_int :: "string \<Rightarrow> cint result" where
  "str_to_int str =
     (case str of
        [] \<Rightarrow> Inl ParseError
      | c # cs \<Rightarrow>
          if c = CHR ''-'' then
            (if cs \<noteq> [] \<and> list_all is_digit cs
             then Inr (word_of_int (- int (parse_digits cs))) else Inl ParseError)
          else
            (if list_all is_digit (c # cs)
             then Inr (word_of_int (int (parse_digits (c # cs)))) else Inl ParseError))"

subsection \<open>\<open>int\<close>, \<open>size_t\<close> and \<open>bool\<close> (lines 39 to 62)\<close>

definition option_to_string_int :: "cint \<Rightarrow> string" where
  "option_to_string_int opt = to_string_int (sint opt)"

definition option_from_string_int :: "string \<Rightarrow> cint \<Rightarrow> cint \<times> unit result" where
  "option_from_string_int str opt =
     (case str_to_int str of Inl e \<Rightarrow> (opt, Inl e) | Inr v \<Rightarrow> (v, Inr ()))"

definition option_add_int :: "cint \<Rightarrow> string \<Rightarrow> cint \<times> bool result" where
  "option_add_int opt str =
     (case str_to_int str of
        Inl e \<Rightarrow> (opt, Inl e)
      | Inr val \<Rightarrow> (opt + val, Inr (val \<noteq> 0)))"

definition option_to_string_size_t :: "size_t \<Rightarrow> string" where
  "option_to_string_size_t opt = to_string_nat (unat opt)"

text \<open>
  \<open>opt = str_to_int(str)\<close> converts the \<open>int\<close> to \<open>size_t\<close>: the signed value modulo
  \<open>2 ^ 64\<close>, which is \<open>scast\<close>.
\<close>

definition option_from_string_size_t :: "string \<Rightarrow> size_t \<Rightarrow> size_t \<times> unit result" where
  "option_from_string_size_t str opt =
     (case str_to_int str of Inl e \<Rightarrow> (opt, Inl e) | Inr v \<Rightarrow> (scast v, Inr ()))"

definition option_to_string_bool :: "bool \<Rightarrow> string" where
  "option_to_string_bool opt = (if opt then ''true'' else ''false'')"

definition option_from_string_bool :: "string \<Rightarrow> bool \<Rightarrow> bool \<times> unit result" where
  "option_from_string_bool str opt =
     (if str = ''true'' \<or> str = ''yes'' then (True, Inr ())
      else if str = ''false'' \<or> str = ''no'' then (False, Inr ())
      else (opt, Inl (runtime_error ''boolean values are either true, yes, false or no'')))"

subsection \<open>The catch-all \<open>option_add\<close> (lines 219 to 224)\<close>

text \<open>
  \<open>WorstMatch\<close> converts from any type, so \<open>option_add(WorstMatch, StringView)\<close> is viable
  for every option type and is chosen when no other overload is. It throws.
\<close>

definition option_add_WorstMatch :: "'a \<Rightarrow> string \<Rightarrow> 'a \<times> bool result" where
  "option_add_WorstMatch opt str =
     (opt, Inl (runtime_error ''no add operation supported for this option type''))"

text \<open>
  For a \<open>bool\<close> destination no other overload is viable: \<open>int&\<close> does not bind to a
  \<open>bool\<close>, and the templates for vectors, strongly typed numbers and prefixed lists do not
  deduce. The call resolves to the catch-all.
\<close>

definition option_add_bool :: "bool \<Rightarrow> string \<Rightarrow> bool \<times> bool result" where
  "option_add_bool opt str = option_add_WorstMatch opt str"

subsection \<open>\<open>Vector<T>\<close> (lines 66 to 101)\<close>

text \<open>
  The element type's \<open>option_to_string\<close> is the argument \<open>ts\<close>, its
  \<open>option_from_string\<close> is \<open>tf\<close>, and \<open>td\<close> is the value of a default-constructed
  \<open>T opt_elem;\<close> that each element is decoded into.
\<close>

fun option_to_string_Vector :: "('a \<Rightarrow> string) \<Rightarrow> 'a list \<Rightarrow> string" where
  "option_to_string_Vector ts [] = []"
| "option_to_string_Vector ts [x] = escape (ts x) list_separator backslash"
| "option_to_string_Vector ts (x # y # ys) =
     escape (ts x) list_separator backslash @ list_separator # option_to_string_Vector ts (y # ys)"

text \<open>The \<open>for\<close> loop of lines 84 to 89; a throwing element leaves \<open>opt\<close> as it is then.\<close>

fun Vector_from_string_loop ::
  "(string \<Rightarrow> 'a \<Rightarrow> 'a \<times> unit result) \<Rightarrow> 'a \<Rightarrow> string list \<Rightarrow> 'a list
     \<Rightarrow> 'a list \<times> unit result" where
  "Vector_from_string_loop tf td [] opt = (opt, Inr ())"
| "Vector_from_string_loop tf td (elem # elems) opt =
     (case tf elem td of
        (opt_elem, Inl e) \<Rightarrow> (opt, Inl e)
      | (opt_elem, Inr u) \<Rightarrow> Vector_from_string_loop tf td elems (opt @ [opt_elem]))"

definition option_from_string_Vector ::
  "(string \<Rightarrow> 'a \<Rightarrow> 'a \<times> unit result) \<Rightarrow> 'a \<Rightarrow> string \<Rightarrow> 'a list
     \<Rightarrow> 'a list \<times> unit result" where
  "option_from_string_Vector tf td str opt =
     Vector_from_string_loop tf td (split str list_separator backslash) []"

text \<open>\<open>std::copy\<close> through a \<open>back_inserter\<close>: one \<open>push_back\<close> per element, in order.\<close>

fun copy_back_inserter :: "'a list \<Rightarrow> 'a list \<Rightarrow> 'a list" where
  "copy_back_inserter [] opt = opt"
| "copy_back_inserter (x # xs) opt = copy_back_inserter xs (opt @ [x])"

definition option_add_Vector ::
  "(string \<Rightarrow> 'a \<Rightarrow> 'a \<times> unit result) \<Rightarrow> 'a \<Rightarrow> 'a list \<Rightarrow> string
     \<Rightarrow> 'a list \<times> bool result" where
  "option_add_Vector tf td opt str =
     (case option_from_string_Vector tf td str [] of
        (vec, Inl e) \<Rightarrow> (opt, Inl e)
      | (vec, Inr u) \<Rightarrow> (copy_back_inserter vec opt, Inr (vec \<noteq> [])))"

subsection \<open>\<open>HashMap<Key, Value>\<close> (lines 109 to 139)\<close>

text \<open>
  Modelled from the spec: the container of hash_map.hh, which is not among the sources.
  A \<open>HashMap\<close> is the list of its entries in iteration order, \<open>clear\<close> empties it, and
  \<open>insert\<close> overwrites the entry that has the same key, or else adds the entry at the end.
\<close>

type_synonym ('k, 'v) HashMap = "('k \<times> 'v) list"

fun HashMap_insert :: "'k \<times> 'v \<Rightarrow> ('k, 'v) HashMap \<Rightarrow> ('k, 'v) HashMap" where
  "HashMap_insert item [] = [item]"
| "HashMap_insert item (it # its) =
     (if fst it = fst item then item # its else it # HashMap_insert item its)"

text \<open>
  The loop of lines 113 to 120; \<open>first\<close> is \<open>it == begin(opt)\<close>, and \<open>HashMap_elem\<close> is
  the string \<open>elem\<close> of lines 117 and 118.
\<close>

definition HashMap_elem :: "('k \<Rightarrow> string) \<Rightarrow> ('v \<Rightarrow> string) \<Rightarrow> 'k \<times> 'v \<Rightarrow> string" where
  "HashMap_elem ks vs it =
     escape (ks (fst it)) (CHR ''='') backslash @ ''='' @
     escape (vs (snd it)) (CHR ''='') backslash"

fun HashMap_to_string_loop ::
  "('k \<Rightarrow> string) \<Rightarrow> ('v \<Rightarrow> string) \<Rightarrow> bool \<Rightarrow> ('k, 'v) HashMap \<Rightarrow> string" where
  "HashMap_to_string_loop ks vs first [] = []"
| "HashMap_to_string_loop ks vs first (it # its) =
     (if first then [] else [list_separator]) @
     escape (HashMap_elem ks vs it) list_separator backslash @
     HashMap_to_string_loop ks vs False its"

definition option_to_string_HashMap ::
  "('k \<Rightarrow> string) \<Rightarrow> ('v \<Rightarrow> string) \<Rightarrow> ('k, 'v) HashMap \<Rightarrow> string" where
  "option_to_string_HashMap ks vs opt = HashMap_to_string_loop ks vs True opt"

text \<open>The loop of lines 128 to 138; \<open>kd\<close> and \<open>vd\<close> are the default-constructed key and value.\<close>

fun HashMap_from_string_loop ::
  "(string \<Rightarrow> 'k \<Rightarrow> 'k \<times> unit result) \<Rightarrow> (string \<Rightarrow> 'v \<Rightarrow> 'v \<times> unit result) \<Rightarrow> 'k \<Rightarrow> 'v
     \<Rightarrow> string list \<Rightarrow> ('k, 'v) HashMap \<Rightarrow> ('k, 'v) HashMap \<times> unit result" where
  "HashMap_from_string_loop kf vf kd vd [] opt = (opt, Inr ())"
| "HashMap_from_string_loop kf vf kd vd (elem # elems) opt =
     (let pair_str = split elem (CHR ''='') backslash in
      if length pair_str \<noteq> 2 then (opt, Inl (runtime_error ''map option expects key=value''))
      else
        (case kf (pair_str ! 0) kd of
           (key, Inl e) \<Rightarrow> (opt, Inl e)
         | (key, Inr u) \<Rightarrow>
             (case vf (pair_str ! 1) vd of
                (val, Inl e) \<Rightarrow> (opt, Inl e)
              | (val, Inr u') \<Rightarrow>
                  HashMap_from_string_loop kf vf kd vd elems (HashMap_insert (key, val) opt))))"

definition option_from_string_HashMap ::
  "(string \<Rightarrow> 'k \<Rightarrow> 'k \<times> unit result) \<Rightarrow> (string \<Rightarrow> 'v \<Rightarrow> 'v \<times> unit result) \<Rightarrow> 'k \<Rightarrow> 'v
     \<Rightarrow> string \<Rightarrow> ('k, 'v) HashMap \<Rightarrow> ('k, 'v) HashMap \<times> unit result" where
  "option_from_string_HashMap kf vf kd vd str opt =
     HashMap_from_string_loop kf vf kd vd (split str list_separator backslash) []"

subsection \<open>\<open>std::tuple<Types...>\<close> (lines 149 to 196)\<close>

text \<open>
  A tuple of \<open>N = sizeof...(Types)\<close> fields is the list of its \<open>N\<close> field values over a
  common carrier type; \<open>Types...\<close> is the list of the fields' operations, \<open>ts ! I\<close> the
  \<open>option_to_string\<close> of field \<open>I\<close> and \<open>fs ! I\<close> its \<open>option_from_string\<close>. The tuple
  and both lists have length \<open>N\<close>, and \<open>N\<close> is at least 1, as in the C++ types, so
  \<open>std::get<I>\<close> is always in range.
\<close>

fun TupleOptionDetail_to_string :: "nat \<Rightarrow> ('a \<Rightarrow> string) list \<Rightarrow> 'a list \<Rightarrow> string" where
  "TupleOptionDetail_to_string 0 ts opt = (ts ! 0) (opt ! 0)"
| "TupleOptionDetail_to_string (Suc i) ts opt =
     TupleOptionDetail_to_string i ts opt @
     tuple_separator # escape ((ts ! Suc i) (opt ! Suc i)) tuple_separator backslash"

text \<open>Field \<open>I\<close> is decoded first, then the fields below it, down to field 0.\<close>

fun TupleOptionDetail_from_string ::
  "nat \<Rightarrow> (string \<Rightarrow> 'a \<Rightarrow> 'a \<times> unit result) list \<Rightarrow> string list \<Rightarrow> 'a list
     \<Rightarrow> 'a list \<times> unit result" where
  "TupleOptionDetail_from_string 0 fs elems opt =
     (case (fs ! 0) (elems ! 0) (opt ! 0) of (v, r) \<Rightarrow> (opt[0 := v], r))"
| "TupleOptionDetail_from_string (Suc i) fs elems opt =
     (case (fs ! Suc i) (elems ! Suc i) (opt ! Suc i) of
        (v, Inl e) \<Rightarrow> (opt[Suc i := v], Inl e)
      | (v, Inr u) \<Rightarrow> TupleOptionDetail_from_string i fs elems (opt[Suc i := v]))"

definition option_to_string_tuple :: "('a \<Rightarrow> string) list \<Rightarrow> 'a list \<Rightarrow> string" where
  "option_to_string_tuple ts opt = TupleOptionDetail_to_string (length ts - 1) ts opt"

definition option_from_string_tuple ::
  "(string \<Rightarrow> 'a \<Rightarrow> 'a \<times> unit result) list \<Rightarrow> string \<Rightarrow> 'a list \<Rightarrow> 'a list \<times> unit result" where
  "option_from_string_tuple fs str opt =
     (let elems = split str tuple_separator backslash in
      if length elems \<noteq> length fs then
        (opt, Inl (runtime_error (if length elems < length fs
                                  then ''not enough elements in tuple''
                                  else ''to many elements in tuple'')))
      else TupleOptionDetail_from_string (length fs - 1) fs elems opt)"

text \<open>
  The scalar option types as one carrier, for tuples whose fields are scalars: the
  constructor is the static type of the field, and selects the overload.
\<close>

datatype scalar = IntOpt cint | SizeOpt size_t | BoolOpt bool

fun option_to_string_scalar :: "scalar \<Rightarrow> string" where
  "option_to_string_scalar (IntOpt opt) = option_to_string_int opt"
| "option_to_string_scalar (SizeOpt opt) = option_to_string_size_t opt"
| "option_to_string_scalar (BoolOpt opt) = option_to_string_bool opt"

fun option_from_string_scalar :: "string \<Rightarrow> scalar \<Rightarrow> scalar \<times> unit result" where
  "option_from_string_scalar str (IntOpt opt) =
     (case option_from_string_int str opt of (v, r) \<Rightarrow> (IntOpt v, r))"
| "option_from_string_scalar str (SizeOpt opt) =
     (case option_from_string_size_t str opt of (v, r) \<Rightarrow> (SizeOpt v, r))"
| "option_from_string_scalar str (BoolOpt opt) =
     (case option_from_string_bool str opt of (v, r) \<Rightarrow> (BoolOpt v, r))"

subsection \<open>\<open>PrefixedList<P, T>\<close> (lines 264 to 305)\<close>

record ('p, 't) PrefixedList =
  prefix :: 'p
  list :: "'t list"

text \<open>
  \<open>format("{}:{}", opt.prefix, ...)\<close> renders the prefix through \<open>format\<close>, which is not
  among the sources; the rendering of a \<open>P\<close> is the argument \<open>fp\<close>.
\<close>

definition option_to_string_PrefixedList ::
  "('p \<Rightarrow> string) \<Rightarrow> ('t \<Rightarrow> string) \<Rightarrow> ('p, 't) PrefixedList \<Rightarrow> string" where
  "option_to_string_PrefixedList fp ts opt =
     fp (prefix opt) @ '':'' @ option_to_string_Vector ts (list opt)"

text \<open>
  \<open>find(str, ':')\<close> is given the string and the character only, no escape character,
  and its result is compared with \<open>str.end()\<close>: it is the position of the first element
  equal to the character, or the end of the string. The string before that position is
  \<open>take it str\<close>, the string after it \<open>drop (it + 1) str\<close>.
\<close>

definition find_str :: "string \<Rightarrow> char \<Rightarrow> nat" where
  "find_str str c = length (takeWhile (\<lambda>x. x \<noteq> c) str)"

definition option_from_string_PrefixedList ::
  "(string \<Rightarrow> 'p \<Rightarrow> 'p \<times> unit result) \<Rightarrow> (string \<Rightarrow> 't \<Rightarrow> 't \<times> unit result) \<Rightarrow> 't
     \<Rightarrow> string \<Rightarrow> ('p, 't) PrefixedList \<Rightarrow> ('p, 't) PrefixedList \<times> unit result" where
  "option_from_string_PrefixedList pf tf td str opt =
     (let it = find_str str (CHR '':'') in
      case pf (take it str) (prefix opt) of
        (p, Inl e) \<Rightarrow> (opt\<lparr>prefix := p\<rparr>, Inl e)
      | (p, Inr u) \<Rightarrow>
          if it \<noteq> length str then
            (case option_from_string_Vector tf td (drop (it + 1) str) (list opt) of
               (l, r) \<Rightarrow> (opt\<lparr>prefix := p, list := l\<rparr>, r))
          else (opt\<lparr>prefix := p\<rparr>, Inr ()))"

definition option_add_PrefixedList ::
  "(string \<Rightarrow> 't \<Rightarrow> 't \<times> unit result) \<Rightarrow> 't \<Rightarrow> ('p, 't) PrefixedList \<Rightarrow> string
     \<Rightarrow> ('p, 't) PrefixedList \<times> bool result" where
  "option_add_PrefixedList tf td opt str =
     (case option_add_Vector tf td (list opt) str of (l, r) \<Rightarrow> (opt\<lparr>list := l\<rparr>, r))"

subsection \<open>The prefixed-list decoder as the specification words it\<close>

text \<open>
  The specification has the decoder locate the first unescaped \<open>:\<close>. This is that
  reading, to be compared with \<open>option_from_string_PrefixedList\<close> above:
  \<open>find_unescaped\<close> skips an escape character together with the character after it.
\<close>

fun find_unescaped :: "string \<Rightarrow> char \<Rightarrow> char \<Rightarrow> nat" where
  "find_unescaped [] c esc = 0"
| "find_unescaped [x] c esc = (if x = c then 0 else 1)"
| "find_unescaped (x # y # xs) c esc =
     (if x = esc then 2 + find_unescaped xs c esc
      else if x = c then 0
      else 1 + find_unescaped (y # xs) c esc)"

definition option_from_string_PrefixedList_spec ::
  "(string \<Rightarrow> 'p \<Rightarrow> 'p \<times> unit result) \<Rightarrow> (string \<Rightarrow> 't \<Rightarrow> 't \<times> unit result) \<Rightarrow> 't
     \<Rightarrow> string \<Rightarrow> ('p, 't) PrefixedList \<Rightarrow> ('p, 't) PrefixedList \<times> unit result" where
  "option_from_string_PrefixedList_spec pf tf td str opt =
     (let it = find_unescaped str (CHR '':'') backslash in
      case pf (take it str) (prefix opt) of
        (p, Inl e) \<Rightarrow> (opt\<lparr>prefix := p\<rparr>, Inl e)
      | (p, Inr u) \<Rightarrow>
          if it \<noteq> length str then
            (case option_from_string_Vector tf td (drop (it + 1) str) (list opt) of
               (l, r) \<Rightarrow> (opt\<lparr>prefix := p, list := l\<rparr>, r))
          else (opt\<lparr>prefix := p\<rparr>, Inr ()))"

section \<open>Auxiliary facts\<close>

subsection \<open>Evaluating concrete inputs\<close>

lemmas str_to_int_eval = str_to_int_def is_digit_def parse_digits_def digit_value_def

lemmas separators = list_separator_def tuple_separator_def backslash_def

lemmas bool_eval = option_from_string_Vector_def option_from_string_bool_def separators

lemma str_to_int_three: "str_to_int ''3'' = Inr 3"
  by (simp add: str_to_int_eval)

lemma str_to_int_minus_one: "str_to_int ''-1'' = Inr (- 1)"
  by (simp add: str_to_int_eval)

lemma bool_list_decode_fails:
  "option_from_string_Vector option_from_string_bool False ''false:maybe'' [True] =
     ([False], Inl (runtime_error ''boolean values are either true, yes, false or no''))"
  by (simp add: option_from_string_Vector_def option_from_string_bool_def separators)

lemma one_as_string: "option_to_string_int 1 = ''1''"
  by (simp add: option_to_string_int_def to_string_int_def to_string_nat.simps [of "Suc 0"]
      digit_char_def)

lemma seven_as_string: "option_to_string_size_t 7 = ''7''"
  by (simp add: option_to_string_size_t_def to_string_nat.simps [of 7] digit_char_def)

subsection \<open>Conversions between \<open>int\<close> and \<open>size_t\<close>\<close>

lemma uint_scast_size: "uint (scast (v :: cint) :: size_t) = sint v mod 2 ^ 64"
proof -
  have "uint (word_of_int (sint v) :: size_t) = sint v mod 2 ^ LENGTH(64)"
    by (rule uint_word_of_int)
  then have "uint (word_of_int (sint v) :: size_t) = sint v mod 2 ^ 64"
    by (simp del: of_int_sint)
  then show ?thesis
    by (simp only: scast_eq)
qed

lemma scast_small:
  assumes "unat (s :: size_t) < 2147483648"
  shows "scast (ucast s :: cint) = s"
proof -
  have u: "uint s < 2147483648" using assms by (simp only: uint_nat)
  have "uint (ucast s :: cint) = take_bit 32 (uint s)"
    by (simp add: unsigned_ucast_eq)
  also have "\<dots> = uint s"
    using u by (simp add: take_bit_int_eq_self)
  finally have a: "uint (ucast s :: cint) = uint s" .
  have "sint (ucast s :: cint) = signed_take_bit 31 (uint (ucast s :: cint))"
    by (simp add: sint_uint)
  also have "\<dots> = signed_take_bit 31 (uint s)"
    by (simp only: a)
  also have "\<dots> = uint s"
  proof (rule signed_take_bit_int_eq_self)
    have "0 \<le> uint s" by (rule uint_ge_0)
    then have "- 2147483648 \<le> uint s" by linarith
    then show "- (2 ^ 31) \<le> uint s" by simp
    show "uint s < 2 ^ 31" using u by simp
  qed
  finally have "sint (ucast s :: cint) = uint s" .
  then have "(word_of_int (sint (ucast s :: cint)) :: size_t) = word_of_int (uint s)"
    by (simp only:)
  then show ?thesis
    by (simp only: scast_eq word_of_int_uint)
qed

lemma mod_two_64_range:
  assumes m: "(k::int) mod 18446744073709551616 = 4294967296"
    and lo: "- 2147483648 \<le> k" and hi: "k < 2147483648"
  shows False
proof (cases "0 \<le> k")
  case True
  with hi have "k mod 18446744073709551616 = k" by (intro mod_pos_pos_trivial) simp_all
  with m hi show False by linarith
next
  case False
  with lo have "(k + 18446744073709551616) mod 18446744073709551616 = k + 18446744073709551616"
    by (intro mod_pos_pos_trivial) linarith+
  moreover have "(k + 18446744073709551616) mod 18446744073709551616 = k mod 18446744073709551616"
    by simp
  ultimately have "k + 18446744073709551616 = 4294967296" using m by linarith
  with lo show False by linarith
qed

lemma scast_not_two_32: "scast (v :: cint) \<noteq> (4294967296 :: size_t)"
proof
  assume "scast v = (4294967296 :: size_t)"
  then have "uint (scast v :: size_t) = 4294967296" by simp
  then have m: "sint v mod 18446744073709551616 = 4294967296"
    using uint_scast_size [of v] by simp
  have "- 2147483648 \<le> sint v" "sint v < 2147483648"
    using sint_range_size [of v] by (simp_all add: word_size)
  with m show False by (rule mod_two_64_range)
qed

subsection \<open>Decimal numerals\<close>

lemma digit_cases: "d < 10 \<Longrightarrow> d \<in> {0, 1, 2, 3, 4, 5, 6, 7, 8, 9 :: nat}"
  by auto

lemma digit_char_props:
  "d < 10 \<Longrightarrow> is_digit (digit_char d) \<and> digit_value (digit_char d) = d \<and> digit_char d \<noteq> CHR ''-''"
  by (drule digit_cases) (auto simp: digit_char_def is_digit_def digit_value_def)

lemma to_string_nat_digits: "list_all is_digit (to_string_nat n)"
proof (induction n rule: to_string_nat.induct)
  case (1 n)
  show ?case
  proof (cases "n < 10")
    case True
    then show ?thesis by (simp add: to_string_nat.simps [of n] digit_char_props)
  next
    case False
    moreover have "n mod 10 < 10" by simp
    ultimately show ?thesis
      using 1 by (simp add: to_string_nat.simps [of n] digit_char_props)
  qed
qed

lemma to_string_nat_not_empty: "to_string_nat n \<noteq> []"
  by (simp add: to_string_nat.simps [of n])

lemma parse_digits_snoc: "parse_digits (ds @ [c]) = parse_digits ds * 10 + digit_value c"
  by (simp add: parse_digits_def)

lemma parse_digits_to_string_nat: "parse_digits (to_string_nat n) = n"
proof (induction n rule: to_string_nat.induct)
  case (1 n)
  show ?case
  proof (cases "n < 10")
    case True
    then show ?thesis
      by (simp add: to_string_nat.simps [of n] parse_digits_def digit_char_props)
  next
    case False
    moreover have "n mod 10 < 10" by simp
    ultimately show ?thesis
      using 1 by (simp add: to_string_nat.simps [of n] parse_digits_snoc digit_char_props)
  qed
qed

lemma is_digit_not_minus: "is_digit c \<Longrightarrow> c \<noteq> CHR ''-''"
  by (auto simp: is_digit_def)

lemma str_to_int_to_string_nat: "str_to_int (to_string_nat n) = Inr (word_of_int (int n))"
proof (cases "to_string_nat n")
  case Nil
  then show ?thesis by (simp add: to_string_nat_not_empty)
next
  case (Cons c cs)
  have d: "list_all is_digit (c # cs)"
    using to_string_nat_digits [of n] Cons by simp
  then have "c \<noteq> CHR ''-''" by (simp add: is_digit_not_minus)
  with d have "str_to_int (c # cs) = Inr (word_of_int (int (parse_digits (c # cs))))"
    by (simp add: str_to_int_def)
  then show ?thesis
    using parse_digits_to_string_nat [of n] Cons by simp
qed

lemma str_to_int_to_string_int: "str_to_int (to_string_int i) = Inr (word_of_int i)"
proof (cases "i < 0")
  case True
  have "str_to_int (CHR ''-'' # to_string_nat (nat (- i))) =
      Inr (word_of_int (- int (parse_digits (to_string_nat (nat (- i))))))"
    by (simp add: str_to_int_def to_string_nat_not_empty to_string_nat_digits)
  with True show ?thesis
    by (simp add: to_string_int_def parse_digits_to_string_nat)
next
  case False
  then show ?thesis
    by (simp add: to_string_int_def str_to_int_to_string_nat)
qed

lemma int_round_trip:
  "option_from_string_int (option_to_string_int i) old = (i, Inr ())"
  by (simp add: option_from_string_int_def option_to_string_int_def str_to_int_to_string_int)

lemma bool_round_trip:
  "option_from_string_bool (option_to_string_bool b) old = (b, Inr ())"
  by (simp add: option_from_string_bool_def option_to_string_bool_def)

lemma size_round_trip:
  "unat s < 2147483648 \<Longrightarrow>
   option_from_string_size_t (option_to_string_size_t s) old = (s, Inr ())"
  by (simp add: option_from_string_size_t_def option_to_string_size_t_def
      str_to_int_to_string_nat scast_small)

subsection \<open>Escaping and splitting\<close>

lemma split_not_esc:
  "c \<noteq> esc \<Longrightarrow>
   split (c # cs) sep esc =
     (if c = sep then [] # split cs sep esc else cons_head c (split cs sep esc))"
  by (cases cs) simp_all

lemma split_esc: "split (esc # d # cs) sep esc = cons_head d (split cs sep esc)"
  by simp

lemma split_escape_sep:
  "sep \<noteq> esc \<Longrightarrow> split (escape a sep esc @ sep # r) sep esc = a # split r sep esc"
proof (induction a)
  case Nil
  then show ?case by (simp add: split_not_esc)
next
  case (Cons x xs)
  show ?case
  proof (cases "x = sep \<or> x = esc")
    case True
    then show ?thesis using Cons by (simp del: split.simps add: split_esc)
  next
    case False
    then show ?thesis using Cons by (simp del: split.simps add: split_not_esc)
  qed
qed

lemma split_escape_end:
  "sep \<noteq> esc \<Longrightarrow> split (escape a sep esc) sep esc = [a]"
proof (induction a)
  case Nil
  then show ?case by simp
next
  case (Cons x xs)
  show ?case
  proof (cases "x = sep \<or> x = esc")
    case True
    then show ?thesis using Cons by (simp del: split.simps add: split_esc)
  next
    case False
    then show ?thesis using Cons by (simp del: split.simps add: split_not_esc)
  qed
qed

lemma escape_plain: "sep \<notin> set a \<Longrightarrow> esc \<notin> set a \<Longrightarrow> escape a sep esc = a"
  by (induction a) auto

lemma list_separator_not_backslash: "list_separator \<noteq> backslash"
  by (simp add: separators)

lemma tuple_separator_not_backslash: "tuple_separator \<noteq> backslash"
  by (simp add: separators)

lemma equals_not_backslash: "CHR ''='' \<noteq> backslash"
  by (simp add: separators)

lemma split_concat_escaped:
  "sep \<noteq> esc \<Longrightarrow>
   split (escape a sep esc @ concat (map (\<lambda>j. sep # escape (g j) sep esc) js)) sep esc =
     a # map g js"
proof (induction js arbitrary: a)
  case Nil
  then show ?case by (simp add: split_escape_end)
next
  case (Cons j js)
  then show ?case by (simp add: split_escape_sep)
qed

subsection \<open>Lists\<close>

lemma copy_back_inserter_append: "copy_back_inserter xs opt = opt @ xs"
  by (induction xs arbitrary: opt) simp_all

lemma split_option_to_string_Vector:
  "xs \<noteq> [] \<Longrightarrow> split (option_to_string_Vector ts xs) list_separator backslash = map ts xs"
proof (induction ts xs rule: option_to_string_Vector.induct)
  case (1 ts)
  then show ?case by simp
next
  case (2 ts x)
  then show ?case by (simp add: split_escape_end list_separator_not_backslash)
next
  case (3 ts x y ys)
  then show ?case by (simp add: split_escape_sep list_separator_not_backslash)
qed

lemma Vector_from_string_loop_round_trip:
  "\<forall>x\<in>set xs. tf (ts x) td = (x, Inr ()) \<Longrightarrow>
   Vector_from_string_loop tf td (map ts xs) acc = (acc @ xs, Inr ())"
  by (induction xs arbitrary: acc) simp_all

lemma Vector_round_trip:
  "xs \<noteq> [] \<Longrightarrow> \<forall>x\<in>set xs. tf (ts x) td = (x, Inr ()) \<Longrightarrow>
   option_from_string_Vector tf td (option_to_string_Vector ts xs) old = (xs, Inr ())"
  by (simp add: option_from_string_Vector_def split_option_to_string_Vector
      Vector_from_string_loop_round_trip)

lemma Vector_from_string_loop_throws:
  "Vector_from_string_loop tf td elems acc = (dst, Inl e) \<Longrightarrow>
   \<exists>n<length elems. Vector_from_string_loop tf td (take n elems) acc = (dst, Inr ()) \<and>
     snd (tf (elems ! n) td) = Inl e"
proof (induction elems arbitrary: acc)
  case Nil
  then show ?case by simp
next
  case (Cons elem elems)
  obtain v r where vr: "tf elem td = (v, r)" by (cases "tf elem td")
  show ?case
  proof (cases r)
    case (Inl e')
    with Cons.prems vr have "dst = acc" "e' = e" by simp_all
    with vr Inl have "Vector_from_string_loop tf td (take 0 (elem # elems)) acc = (dst, Inr ()) \<and>
      snd (tf ((elem # elems) ! 0) td) = Inl e" by simp
    then show ?thesis by blast
  next
    case (Inr u)
    with Cons.prems vr have "Vector_from_string_loop tf td elems (acc @ [v]) = (dst, Inl e)"
      by simp
    from Cons.IH [OF this] obtain n where n: "n < length elems"
      and l: "Vector_from_string_loop tf td (take n elems) (acc @ [v]) = (dst, Inr ())"
      and f: "snd (tf (elems ! n) td) = Inl e" by blast
    from vr Inr l f have "Vector_from_string_loop tf td (take (Suc n) (elem # elems)) acc = (dst, Inr ()) \<and>
      snd (tf ((elem # elems) ! Suc n) td) = Inl e" by simp
    moreover from n have "Suc n < length (elem # elems)" by simp
    ultimately show ?thesis by blast
  qed
qed

lemma option_add_Vector_throws:
  "option_add_Vector tf td opt str = (dst, Inl e) \<Longrightarrow> dst = opt"
  by (auto simp: option_add_Vector_def split: prod.splits sum.splits)

subsection \<open>Maps\<close>

lemma map_of_HashMap_insert: "map_of (HashMap_insert (k, v) m) = (map_of m)(k \<mapsto> v)"
  by (induction m) auto

lemma keys_HashMap_insert: "fst ` set (HashMap_insert kv m) = insert (fst kv) (fst ` set m)"
  by (induction m) auto

lemma distinct_HashMap_insert:
  "distinct (map fst m) \<Longrightarrow> distinct (map fst (HashMap_insert kv m))"
proof (induction m)
  case Nil
  then show ?case by simp
next
  case (Cons it its)
  show ?case
  proof (cases "fst it = fst kv")
    case True
    with Cons.prems show ?thesis by simp
  next
    case False
    with Cons show ?thesis by (simp add: keys_HashMap_insert)
  qed
qed

lemma HashMap_from_string_loop_ok:
  assumes "list_all2 (\<lambda>elem kv. \<exists>a b. split elem (CHR ''='') backslash = [a, b] \<and>
              kf a kd = (fst kv, Inr ()) \<and> vf b vd = (snd kv, Inr ())) elems pairs"
  shows "\<exists>m. HashMap_from_string_loop kf vf kd vd elems acc = (m, Inr ()) \<and>
             map_of m = map_of acc ++ map_of (rev pairs) \<and>
             (distinct (map fst acc) \<longrightarrow> distinct (map fst m))"
  using assms
proof (induction elems pairs arbitrary: acc rule: list_all2_induct)
  case Nil
  then show ?case by simp
next
  case (Cons elem elems kv pairs)
  from Cons.hyps(1) obtain a b where ab: "split elem (CHR ''='') backslash = [a, b]"
    and k: "kf a kd = (fst kv, Inr ())" and v: "vf b vd = (snd kv, Inr ())"
    by blast
  from Cons.IH [of "HashMap_insert kv acc"] obtain m where
    m: "HashMap_from_string_loop kf vf kd vd elems (HashMap_insert kv acc) = (m, Inr ())"
    and mo: "map_of m = map_of (HashMap_insert kv acc) ++ map_of (rev pairs)"
    and di: "distinct (map fst (HashMap_insert kv acc)) \<longrightarrow> distinct (map fst m)"
    by blast
  have step: "HashMap_from_string_loop kf vf kd vd (elem # elems) acc = (m, Inr ())"
    using ab k v m by simp
  have "map_of (HashMap_insert kv acc) = map_of acc ++ map_of [kv]"
    using map_of_HashMap_insert [of "fst kv" "snd kv" acc] by simp
  then have "map_of m = map_of acc ++ map_of (rev (kv # pairs))"
    using mo by simp
  moreover have "distinct (map fst acc) \<longrightarrow> distinct (map fst m)"
    using di distinct_HashMap_insert by blast
  ultimately show ?case using step by blast
qed

lemma map_of_rev_last:
  "i < length ps \<Longrightarrow> \<forall>j. i < j \<and> j < length ps \<longrightarrow> fst (ps ! j) \<noteq> fst (ps ! i) \<Longrightarrow>
   map_of (rev ps) (fst (ps ! i)) = Some (snd (ps ! i))"
proof (induction ps rule: rev_induct)
  case Nil
  then show ?case by simp
next
  case (snoc q qs)
  show ?case
  proof (cases "i = length qs")
    case True
    then show ?thesis by simp
  next
    case False
    with snoc.prems(1) have i: "i < length qs" by simp
    from snoc.prems(2) [rule_format, of "length qs"] i
    have "fst ((qs @ [q]) ! length qs) \<noteq> fst ((qs @ [q]) ! i)"
      by simp
    then have ne: "fst q \<noteq> fst (qs ! i)" using i by (simp add: nth_append)
    have "\<forall>j. i < j \<and> j < length qs \<longrightarrow> fst (qs ! j) \<noteq> fst (qs ! i)"
    proof (intro allI impI)
      fix j assume j: "i < j \<and> j < length qs"
      with snoc.prems(2) [rule_format, of j] have "fst ((qs @ [q]) ! j) \<noteq> fst ((qs @ [q]) ! i)" by simp
      with j i show "fst (qs ! j) \<noteq> fst (qs ! i)" by (simp add: nth_append)
    qed
    with snoc.IH i have "map_of (rev qs) (fst (qs ! i)) = Some (snd (qs ! i))" by blast
    with ne i show ?thesis by (simp add: nth_append)
  qed
qed

lemma split_HashMap_to_string_rest:
  "split (escape a list_separator backslash @ HashMap_to_string_loop ks vs False m)
     list_separator backslash = a # map (HashMap_elem ks vs) m"
proof (induction m arbitrary: a)
  case Nil
  then show ?case by (simp add: split_escape_end list_separator_not_backslash)
next
  case (Cons it its)
  have "split (escape a list_separator backslash @
          list_separator # (escape (HashMap_elem ks vs it) list_separator backslash @
            HashMap_to_string_loop ks vs False its)) list_separator backslash =
        a # split (escape (HashMap_elem ks vs it) list_separator backslash @
            HashMap_to_string_loop ks vs False its) list_separator backslash"
    by (rule split_escape_sep) (rule list_separator_not_backslash)
  then show ?case using Cons [of "HashMap_elem ks vs it"]
    by (simp add: HashMap_elem_def)
qed

lemma split_option_to_string_HashMap:
  "m \<noteq> [] \<Longrightarrow>
   split (option_to_string_HashMap ks vs m) list_separator backslash = map (HashMap_elem ks vs) m"
proof (cases m)
  case Nil
  then show "m \<noteq> [] \<Longrightarrow> ?thesis" by simp
next
  case (Cons it its)
  then show ?thesis
    using split_HashMap_to_string_rest [of "HashMap_elem ks vs it" ks vs its]
    by (simp add: option_to_string_HashMap_def HashMap_elem_def)
qed

lemma split_HashMap_elem:
  "split (HashMap_elem ks vs it) (CHR ''='') backslash = [ks (fst it), vs (snd it)]"
  using split_escape_sep [OF equals_not_backslash, of "ks (fst it)" "escape (vs (snd it)) (CHR ''='') backslash"]
  by (simp add: HashMap_elem_def split_escape_end equals_not_backslash)

lemma HashMap_round_trip:
  assumes ne: "m \<noteq> []" and di: "distinct (map fst m)"
    and rt: "\<forall>it\<in>set m. kf (ks (fst it)) kd = (fst it, Inr ()) \<and>
                           vf (vs (snd it)) vd = (snd it, Inr ())"
  shows "\<exists>m'. option_from_string_HashMap kf vf kd vd (option_to_string_HashMap ks vs m) old =
               (m', Inr ()) \<and> set m' = set m"
proof -
  have "list_all2 (\<lambda>elem kv. \<exists>a b. split elem (CHR ''='') backslash = [a, b] \<and>
              kf a kd = (fst kv, Inr ()) \<and> vf b vd = (snd kv, Inr ()))
          (map (HashMap_elem ks vs) m) m"
    using rt by (induction m) (simp_all add: split_HashMap_elem)
  then have "list_all2 (\<lambda>elem kv. \<exists>a b. split elem (CHR ''='') backslash = [a, b] \<and>
              kf a kd = (fst kv, Inr ()) \<and> vf b vd = (snd kv, Inr ()))
          (split (option_to_string_HashMap ks vs m) list_separator backslash) m"
    using ne by (simp add: split_option_to_string_HashMap)
  from HashMap_from_string_loop_ok
    [where kf = kf and kd = kd and vf = vf and vd = vd and acc = "[]", OF this]
  obtain m' where
    r: "option_from_string_HashMap kf vf kd vd (option_to_string_HashMap ks vs m) old = (m', Inr ())"
    and mo: "map_of m' = map_of (rev m)" and d': "distinct (map fst m')"
    by (auto simp: option_from_string_HashMap_def)
  have "distinct (map fst (rev m))" using di by (simp add: rev_map [symmetric])
  with d' mo have "set m' = set (rev m)" by (simp add: map_of_inject_set)
  with r show ?thesis by simp
qed

lemma HashMap_from_string_loop_failing_entry:
  "HashMap_from_string_loop kf vf kd vd elems acc = (dst, Inl e) \<Longrightarrow>
   \<exists>n<length elems.
     HashMap_from_string_loop kf vf kd vd (take n elems) acc = (dst, Inr ()) \<and>
     ((length (split (elems ! n) (CHR ''='') backslash) \<noteq> 2 \<and>
       e = runtime_error ''map option expects key=value'') \<or>
      (length (split (elems ! n) (CHR ''='') backslash) = 2 \<and>
       snd (kf (split (elems ! n) (CHR ''='') backslash ! 0) kd) = Inl e) \<or>
      (length (split (elems ! n) (CHR ''='') backslash) = 2 \<and>
       snd (kf (split (elems ! n) (CHR ''='') backslash ! 0) kd) = Inr () \<and>
       snd (vf (split (elems ! n) (CHR ''='') backslash ! 1) vd) = Inl e))"
proof (induction elems arbitrary: acc)
  case Nil
  then show ?case by simp
next
  case (Cons elem elems)
  let ?ps = "split elem (CHR ''='') backslash"
  obtain k rk where k: "kf (?ps ! 0) kd = (k, rk)" by (cases "kf (?ps ! 0) kd")
  obtain v rv where v: "vf (?ps ! 1) vd = (v, rv)" by (cases "vf (?ps ! 1) vd")
  show ?case
  proof (cases "length ?ps = 2 \<and> rk = Inr () \<and> rv = Inr ()")
    case True
    with Cons.prems k v
    have "HashMap_from_string_loop kf vf kd vd elems (HashMap_insert (k, v) acc) = (dst, Inl e)"
      by (simp add: Let_def)
    from Cons.IH [OF this] obtain n where n: "n < length elems"
      and l: "HashMap_from_string_loop kf vf kd vd (take n elems) (HashMap_insert (k, v) acc) =
              (dst, Inr ())"
      and f: "(length (split (elems ! n) (CHR ''='') backslash) \<noteq> 2 \<and>
       e = runtime_error ''map option expects key=value'') \<or>
      (length (split (elems ! n) (CHR ''='') backslash) = 2 \<and>
       snd (kf (split (elems ! n) (CHR ''='') backslash ! 0) kd) = Inl e) \<or>
      (length (split (elems ! n) (CHR ''='') backslash) = 2 \<and>
       snd (kf (split (elems ! n) (CHR ''='') backslash ! 0) kd) = Inr () \<and>
       snd (vf (split (elems ! n) (CHR ''='') backslash ! 1) vd) = Inl e)"
      by blast
    from True k v l
    have "HashMap_from_string_loop kf vf kd vd (take (Suc n) (elem # elems)) acc = (dst, Inr ())"
      by (simp add: Let_def)
    moreover from n have "Suc n < length (elem # elems)" by simp
    moreover have "(elem # elems) ! Suc n = elems ! n" by simp
    ultimately show ?thesis using f by metis
  next
    case False
    have zero: "HashMap_from_string_loop kf vf kd vd (take 0 (elem # elems)) acc = (acc, Inr ())"
      by simp
    from False Cons.prems k v have d: "dst = acc"
      by (cases rk; cases rv) (auto simp: Let_def split: if_splits)
    from False Cons.prems k v
    have "(length ?ps \<noteq> 2 \<and> e = runtime_error ''map option expects key=value'') \<or>
      (length ?ps = 2 \<and> snd (kf (?ps ! 0) kd) = Inl e) \<or>
      (length ?ps = 2 \<and> snd (kf (?ps ! 0) kd) = Inr () \<and> snd (vf (?ps ! 1) vd) = Inl e)"
      by (cases rk; cases rv) (auto simp: Let_def split: if_splits)
    moreover have "(elem # elems) ! 0 = elem" by simp
    moreover have "0 < length (elem # elems)" by simp
    ultimately show ?thesis using zero d by metis
  qed
qed

subsection \<open>Tuples\<close>

lemma TupleOptionDetail_to_string_concat:
  "TupleOptionDetail_to_string i ts opt =
     (ts ! 0) (opt ! 0) @
     concat (map (\<lambda>j. tuple_separator # escape ((ts ! j) (opt ! j)) tuple_separator backslash)
               [1..<Suc i])"
  by (induction i) simp_all

lemma split_option_to_string_tuple:
  assumes "ts \<noteq> []"
    and "tuple_separator \<notin> set ((ts ! 0) (v ! 0))" and "backslash \<notin> set ((ts ! 0) (v ! 0))"
  shows "split (option_to_string_tuple ts v) tuple_separator backslash =
           map (\<lambda>j. (ts ! j) (v ! j)) [0..<length ts]"
proof -
  from assms(1) have n: "Suc (length ts - 1) = length ts" by simp
  have "split (option_to_string_tuple ts v) tuple_separator backslash =
      split (escape ((ts ! 0) (v ! 0)) tuple_separator backslash @
        concat (map (\<lambda>j. tuple_separator # escape ((ts ! j) (v ! j)) tuple_separator backslash)
                  [1..<length ts])) tuple_separator backslash"
    using assms(2,3) n
    by (simp add: option_to_string_tuple_def TupleOptionDetail_to_string_concat escape_plain)
  also have "\<dots> = (ts ! 0) (v ! 0) # map (\<lambda>j. (ts ! j) (v ! j)) [1..<length ts]"
    by (rule split_concat_escaped) (rule tuple_separator_not_backslash)
  also have "\<dots> = map (\<lambda>j. (ts ! j) (v ! j)) [0..<length ts]"
    using assms(1) by (simp add: upt_conv_Cons)
  finally show ?thesis .
qed

lemma TupleOptionDetail_from_string_fields:
  assumes "i < length opt"
    and "\<forall>j\<le>i. (fs ! j) (elems ! j) (opt ! j) = (v ! j, Inr ())"
  shows "\<exists>r. TupleOptionDetail_from_string i fs elems opt = (r, Inr ()) \<and>
           length r = length opt \<and>
           (\<forall>j<length opt. r ! j = (if j \<le> i then v ! j else opt ! j))"
  using assms
proof (induction i arbitrary: opt)
  case 0
  then show ?case by (auto simp: nth_list_update)
next
  case (Suc i)
  let ?opt = "opt[Suc i := v ! Suc i]"
  from Suc.prems(2) have top: "(fs ! Suc i) (elems ! Suc i) (opt ! Suc i) = (v ! Suc i, Inr ())"
    by simp
  have "i < length ?opt" using Suc.prems(1) by simp
  moreover have "\<forall>j\<le>i. (fs ! j) (elems ! j) (?opt ! j) = (v ! j, Inr ())"
    using Suc.prems(2) by (simp add: nth_list_update)
  ultimately obtain r where r: "TupleOptionDetail_from_string i fs elems ?opt = (r, Inr ())"
    and len: "length r = length ?opt"
    and nth: "\<forall>j<length ?opt. r ! j = (if j \<le> i then v ! j else ?opt ! j)"
    using Suc.IH [of ?opt] by blast
  have "TupleOptionDetail_from_string (Suc i) fs elems opt = (r, Inr ())"
    using top r by simp
  moreover have "length r = length opt" using len by simp
  moreover have "\<forall>j<length opt. r ! j = (if j \<le> Suc i then v ! j else opt ! j)"
    using nth by (auto simp: nth_list_update le_Suc_eq)
  ultimately show ?case by blast
qed

lemma tuple_round_trip:
  assumes ne: "ts \<noteq> []" and lf: "length fs = length ts"
    and lv: "length v = length ts" and lo: "length old = length ts"
    and plain: "tuple_separator \<notin> set ((ts ! 0) (v ! 0))" "backslash \<notin> set ((ts ! 0) (v ! 0))"
    and rt: "\<forall>j<length ts. (fs ! j) ((ts ! j) (v ! j)) (old ! j) = (v ! j, Inr ())"
  shows "option_from_string_tuple fs (option_to_string_tuple ts v) old = (v, Inr ())"
proof -
  let ?elems = "map (\<lambda>j. (ts ! j) (v ! j)) [0..<length ts]"
  have sp: "split (option_to_string_tuple ts v) tuple_separator backslash = ?elems"
    using ne plain by (rule split_option_to_string_tuple)
  have i: "length ts - 1 < length old" using ne lo by simp
  have "\<forall>j\<le>length ts - 1. (fs ! j) (?elems ! j) (old ! j) = (v ! j, Inr ())"
  proof (intro allI impI)
    fix j assume "j \<le> length ts - 1"
    with ne have j: "j < length ts" by (cases ts) simp_all
    then have "?elems ! j = (ts ! j) (v ! j)" by simp
    with rt j show "(fs ! j) (?elems ! j) (old ! j) = (v ! j, Inr ())" by simp
  qed
  from TupleOptionDetail_from_string_fields [OF i this] obtain r where
    r: "TupleOptionDetail_from_string (length ts - 1) fs ?elems old = (r, Inr ())"
    and len: "length r = length old"
    and nth: "\<forall>j<length old. r ! j = (if j \<le> length ts - 1 then v ! j else old ! j)"
    by blast
  have "r = v"
  proof (rule nth_equalityI)
    show "length r = length v" using len lo lv by simp
  next
    fix j assume "j < length r"
    with len lo nth show "r ! j = v ! j" by auto
  qed
  with r sp lf show ?thesis
    by (simp add: option_from_string_tuple_def)
qed

lemma option_from_string_tuple_arity:
  "length (split str tuple_separator backslash) \<noteq> length fs \<Longrightarrow>
   option_from_string_tuple fs str opt =
     (opt, Inl (runtime_error (if length (split str tuple_separator backslash) < length fs
                               then ''not enough elements in tuple''
                               else ''to many elements in tuple'')))"
  by (simp add: option_from_string_tuple_def Let_def)

subsection \<open>Prefixed lists\<close>

lemma find_str_append:
  "c \<notin> set a \<Longrightarrow> find_str (a @ c # b) c = length a"
  by (induction a) (auto simp: find_str_def)

lemma find_str_none: "c \<notin> set str \<Longrightarrow> find_str str c = length str"
  by (induction str) (auto simp: find_str_def)

lemma PrefixedList_decode_at_colon:
  "CHR '':'' \<notin> set a \<Longrightarrow>
   option_from_string_PrefixedList pf tf td (a @ CHR '':'' # b) opt =
     (case pf a (prefix opt) of
        (p, Inl e) \<Rightarrow> (opt\<lparr>prefix := p\<rparr>, Inl e)
      | (p, Inr u) \<Rightarrow>
          (case option_from_string_Vector tf td b (list opt) of
             (l, r) \<Rightarrow> (opt\<lparr>prefix := p, list := l\<rparr>, r)))"
  by (auto simp: option_from_string_PrefixedList_def Let_def find_str_append
      split: prod.splits sum.splits)

lemma PrefixedList_decode_no_colon:
  "CHR '':'' \<notin> set str \<Longrightarrow>
   option_from_string_PrefixedList pf tf td str opt =
     (case pf str (prefix opt) of (p, r) \<Rightarrow> (opt\<lparr>prefix := p\<rparr>, r))"
  by (auto simp: option_from_string_PrefixedList_def Let_def find_str_none
      split: prod.splits sum.splits)

lemma PrefixedList_round_trip:
  assumes "CHR '':'' \<notin> set (fp (prefix v))"
    and "pf (fp (prefix v)) (prefix old) = (prefix v, Inr ())"
    and "list v \<noteq> []" and "\<forall>x\<in>set (list v). tf (ts x) td = (x, Inr ())"
  shows "option_from_string_PrefixedList pf tf td (option_to_string_PrefixedList fp ts v) old =
           (old\<lparr>prefix := prefix v, list := list v\<rparr>, Inr ())"
  using assms
  by (simp add: option_to_string_PrefixedList_def PrefixedList_decode_at_colon Vector_round_trip)

lemma option_add_PrefixedList_throws:
  "option_add_PrefixedList tf td opt str = (dst, Inl e) \<Longrightarrow> dst = opt"
  by (auto simp: option_add_PrefixedList_def split: prod.splits dest: option_add_Vector_throws)

section \<open>Properties\<close>

subsection \<open>Round trip\<close>

text \<open>
  C1, as the specification states it, is about every supported value, every \<open>size_t\<close>
  among them. A \<open>size_t\<close> is decoded through \<open>str_to_int\<close>, whose result is an \<open>int\<close>:
  whatever the parser makes of the numeral \<open>4294967296\<close>, the \<open>int\<close> converted to
  \<open>size_t\<close> is below \<open>2 ^ 31\<close> or at least \<open>2 ^ 64 - 2 ^ 31\<close>, so decoding the encoding
  of \<open>2 ^ 32\<close> does not give \<open>2 ^ 32\<close>.
\<close>

theorem size_round_trip_counterexample:
  "fst (option_from_string_size_t (option_to_string_size_t 4294967296) 0) \<noteq> 4294967296"
  by (simp add: option_from_string_size_t_def scast_not_two_32 split: sum.split)

text \<open>
  C1, amended: decoding the encoding of \<open>v\<close> succeeds and gives \<open>v\<close>
  \<^item> for every \<open>int\<close> and every \<open>bool\<close>;
  \<^item> for every \<open>size_t\<close> below \<open>2 ^ 31\<close>;
  \<^item> for every non-empty list whose elements round-trip;
  \<^item> for every non-empty map with distinct keys whose keys and values round-trip, the
    result being equal as a set of key/value pairs;
  \<^item> for every tuple whose fields round-trip and whose first field encodes to a string
    without \<open>|\<close> and without backslash (field 0 is the one the encoder does not escape);
  \<^item> for every prefixed list whose prefix renders without \<open>:\<close> and decodes back, and
    whose list is non-empty with elements that round-trip.

  The elements of a list and the keys and values of a map are decoded into a
  default-constructed value (\<open>td\<close>, \<open>kd\<close>, \<open>vd\<close>), the fields of a tuple and the prefix
  into the destination's own.
\<close>

theorem round_trip:
  "option_from_string_int (option_to_string_int i) iold = (i, Inr ()) \<and>
   option_from_string_bool (option_to_string_bool b) bold = (b, Inr ()) \<and>
   (unat s < 2 ^ 31 \<longrightarrow>
      option_from_string_size_t (option_to_string_size_t s) sold = (s, Inr ())) \<and>
   (xs \<noteq> [] \<and> (\<forall>x\<in>set xs. tf (ts x) td = (x, Inr ())) \<longrightarrow>
      option_from_string_Vector tf td (option_to_string_Vector ts xs) xold = (xs, Inr ())) \<and>
   (m \<noteq> [] \<and> distinct (map fst m) \<and>
    (\<forall>it\<in>set m. kf (ks (fst it)) kd = (fst it, Inr ()) \<and>
                  vf (vs (snd it)) vd = (snd it, Inr ())) \<longrightarrow>
      (\<exists>m'. option_from_string_HashMap kf vf kd vd (option_to_string_HashMap ks vs m) mold =
               (m', Inr ()) \<and> set m' = set m)) \<and>
   (fts \<noteq> [] \<and> length ffs = length fts \<and> length tv = length fts \<and>
    length told = length fts \<and>
    tuple_separator \<notin> set ((fts ! 0) (tv ! 0)) \<and> backslash \<notin> set ((fts ! 0) (tv ! 0)) \<and>
    (\<forall>j<length fts. (ffs ! j) ((fts ! j) (tv ! j)) (told ! j) = (tv ! j, Inr ())) \<longrightarrow>
      option_from_string_tuple ffs (option_to_string_tuple fts tv) told = (tv, Inr ())) \<and>
   (CHR '':'' \<notin> set (fp (prefix pv)) \<and>
    pf (fp (prefix pv)) (prefix pold) = (prefix pv, Inr ()) \<and>
    list pv \<noteq> [] \<and> (\<forall>x\<in>set (list pv). ptf (pts x) ptd = (x, Inr ())) \<longrightarrow>
      option_from_string_PrefixedList pf ptf ptd (option_to_string_PrefixedList fp pts pv) pold =
        (pv, Inr ()))"
proof (intro conjI impI)
  show "option_from_string_int (option_to_string_int i) iold = (i, Inr ())"
    by (rule int_round_trip)
  show "option_from_string_bool (option_to_string_bool b) bold = (b, Inr ())"
    by (rule bool_round_trip)
next
  assume "unat s < 2 ^ 31"
  then have "unat s < 2147483648" by simp
  then show "option_from_string_size_t (option_to_string_size_t s) sold = (s, Inr ())"
    by (rule size_round_trip)
next
  assume "xs \<noteq> [] \<and> (\<forall>x\<in>set xs. tf (ts x) td = (x, Inr ()))"
  then show "option_from_string_Vector tf td (option_to_string_Vector ts xs) xold = (xs, Inr ())"
    by (simp add: Vector_round_trip)
next
  assume "m \<noteq> [] \<and> distinct (map fst m) \<and>
    (\<forall>it\<in>set m. kf (ks (fst it)) kd = (fst it, Inr ()) \<and>
                  vf (vs (snd it)) vd = (snd it, Inr ()))"
  then show "\<exists>m'. option_from_string_HashMap kf vf kd vd (option_to_string_HashMap ks vs m) mold =
               (m', Inr ()) \<and> set m' = set m"
    by (intro HashMap_round_trip) simp_all
next
  assume "fts \<noteq> [] \<and> length ffs = length fts \<and> length tv = length fts \<and>
    length told = length fts \<and>
    tuple_separator \<notin> set ((fts ! 0) (tv ! 0)) \<and> backslash \<notin> set ((fts ! 0) (tv ! 0)) \<and>
    (\<forall>j<length fts. (ffs ! j) ((fts ! j) (tv ! j)) (told ! j) = (tv ! j, Inr ()))"
  then show "option_from_string_tuple ffs (option_to_string_tuple fts tv) told = (tv, Inr ())"
    by (intro tuple_round_trip) simp_all
next
  assume a: "CHR '':'' \<notin> set (fp (prefix pv)) \<and>
    pf (fp (prefix pv)) (prefix pold) = (prefix pv, Inr ()) \<and>
    list pv \<noteq> [] \<and> (\<forall>x\<in>set (list pv). ptf (pts x) ptd = (x, Inr ()))"
  then have "option_from_string_PrefixedList pf ptf ptd
      (option_to_string_PrefixedList fp pts pv) pold =
        (pold\<lparr>prefix := prefix pv, list := list pv\<rparr>, Inr ())"
    by (intro PrefixedList_round_trip) simp_all
  then show "option_from_string_PrefixedList pf ptf ptd
      (option_to_string_PrefixedList fp pts pv) pold = (pv, Inr ())"
    by simp
qed

theorem round_trip_witness:
  "option_from_string_size_t (option_to_string_size_t 7) 0 = (7, Inr ()) \<and>
   option_from_string_Vector (option_from_string_Vector option_from_string_bool False) []
     (option_to_string_Vector (option_to_string_Vector option_to_string_bool)
        [[True, False], [True]]) [] = ([[True, False], [True]], Inr ()) \<and>
   (\<exists>m'. option_from_string_HashMap option_from_string_int option_from_string_bool 0 False
           (option_to_string_HashMap option_to_string_int option_to_string_bool
              [(1, True), (2, False)]) [(5, True)] = (m', Inr ()) \<and>
         set m' = set [(1, True), (2, False)]) \<and>
   option_from_string_tuple [option_from_string_scalar, option_from_string_scalar]
     (option_to_string_tuple [option_to_string_scalar, option_to_string_scalar]
        [IntOpt 1, BoolOpt True]) [IntOpt 0, BoolOpt False] = ([IntOpt 1, BoolOpt True], Inr ()) \<and>
   option_from_string_PrefixedList option_from_string_size_t option_from_string_bool False
     (option_to_string_PrefixedList option_to_string_size_t option_to_string_bool
        \<lparr>prefix = 7, list = [True, False]\<rparr>) \<lparr>prefix = 0, list = []\<rparr> =
     (\<lparr>prefix = 7, list = [True, False]\<rparr>, Inr ())"
proof -
  have h3: "unat (7 :: size_t) < 2 ^ 31" by simp
  have h4: "[[True, False], [True]] \<noteq> [] \<and>
    (\<forall>x\<in>set [[True, False], [True]].
       option_from_string_Vector option_from_string_bool False
         (option_to_string_Vector option_to_string_bool x) [] = (x, Inr ()))"
  proof -
    have "option_from_string_Vector option_from_string_bool False
         (option_to_string_Vector option_to_string_bool x) [] = (x, Inr ())" if "x \<noteq> []" for x
      using that by (intro Vector_round_trip) (simp_all add: bool_round_trip)
    then show ?thesis by (simp del: option_to_string_Vector.simps)
  qed
  have h5: "[(1 :: cint, True), (2, False)] \<noteq> [] \<and> distinct (map fst [(1 :: cint, True), (2, False)]) \<and>
    (\<forall>it\<in>set [(1 :: cint, True), (2, False)].
       option_from_string_int (option_to_string_int (fst it)) 0 = (fst it, Inr ()) \<and>
       option_from_string_bool (option_to_string_bool (snd it)) False = (snd it, Inr ()))"
    by (simp add: int_round_trip bool_round_trip)
  have h6: "[option_to_string_scalar, option_to_string_scalar] \<noteq> [] \<and>
    length [option_from_string_scalar, option_from_string_scalar] =
      length [option_to_string_scalar, option_to_string_scalar] \<and>
    length [IntOpt 1, BoolOpt True] = length [option_to_string_scalar, option_to_string_scalar] \<and>
    length [IntOpt 0, BoolOpt False] = length [option_to_string_scalar, option_to_string_scalar] \<and>
    tuple_separator \<notin> set (([option_to_string_scalar, option_to_string_scalar] ! 0)
                               ([IntOpt 1, BoolOpt True] ! 0)) \<and>
    backslash \<notin> set (([option_to_string_scalar, option_to_string_scalar] ! 0)
                         ([IntOpt 1, BoolOpt True] ! 0)) \<and>
    (\<forall>j<length [option_to_string_scalar, option_to_string_scalar].
       ([option_from_string_scalar, option_from_string_scalar] ! j)
         (([option_to_string_scalar, option_to_string_scalar] ! j) ([IntOpt 1, BoolOpt True] ! j))
         ([IntOpt 0, BoolOpt False] ! j) = ([IntOpt 1, BoolOpt True] ! j, Inr ()))"
    by (auto simp: one_as_string separators less_Suc_eq option_from_string_int_def
        str_to_int_eval bool_round_trip)
  have h7: "CHR '':'' \<notin> set (option_to_string_size_t (prefix \<lparr>prefix = 7 :: size_t, list = [True, False]\<rparr>)) \<and>
    option_from_string_size_t
      (option_to_string_size_t (prefix \<lparr>prefix = 7 :: size_t, list = [True, False]\<rparr>))
      (prefix \<lparr>prefix = 0 :: size_t, list = ([] :: bool list)\<rparr>) =
      (prefix \<lparr>prefix = 7 :: size_t, list = [True, False]\<rparr>, Inr ()) \<and>
    list \<lparr>prefix = 7 :: size_t, list = [True, False]\<rparr> \<noteq> [] \<and>
    (\<forall>x\<in>set (list \<lparr>prefix = 7 :: size_t, list = [True, False]\<rparr>).
       option_from_string_bool (option_to_string_bool x) False = (x, Inr ()))"
    by (simp add: seven_as_string option_from_string_size_t_def str_to_int_eval bool_round_trip)
  note c3 = round_trip [where s = 7 and sold = 0,
      THEN conjunct2, THEN conjunct2, THEN conjunct1, rule_format, OF h3]
  note c4 = round_trip [where xs = "[[True, False], [True]]"
      and tf = "option_from_string_Vector option_from_string_bool False"
      and ts = "option_to_string_Vector option_to_string_bool" and td = "[]" and xold = "[]",
      THEN conjunct2, THEN conjunct2, THEN conjunct2, THEN conjunct1, rule_format, OF h4]
  note c5 = round_trip [where m = "[(1, True), (2, False)]"
      and kf = option_from_string_int and ks = option_to_string_int and kd = 0
      and vf = option_from_string_bool and vs = option_to_string_bool and vd = False
      and mold = "[(5, True)]",
      THEN conjunct2, THEN conjunct2, THEN conjunct2, THEN conjunct2, THEN conjunct1,
      rule_format, OF h5]
  note c6 = round_trip [where fts = "[option_to_string_scalar, option_to_string_scalar]"
      and ffs = "[option_from_string_scalar, option_from_string_scalar]"
      and tv = "[IntOpt 1, BoolOpt True]" and told = "[IntOpt 0, BoolOpt False]",
      THEN conjunct2, THEN conjunct2, THEN conjunct2, THEN conjunct2, THEN conjunct2,
      THEN conjunct1, rule_format, OF h6]
  note c7 = round_trip [where pv = "\<lparr>prefix = 7, list = [True, False]\<rparr>"
      and pold = "\<lparr>prefix = 0, list = []\<rparr>"
      and fp = option_to_string_size_t and pf = option_from_string_size_t
      and ptf = option_from_string_bool and pts = option_to_string_bool and ptd = False,
      THEN conjunct2, THEN conjunct2, THEN conjunct2, THEN conjunct2, THEN conjunct2,
      THEN conjunct2, rule_format, OF h7]
  from c3 c4 c5 c6 c7 show ?thesis by blast
qed

text \<open>
  The restrictions are not idle. The empty list and the empty map encode to the empty
  string, which \<open>split\<close> turns into one empty element, and that element does not decode.
  A tuple whose first field is itself a tuple of two is encoded with the inner \<open>|\<close>
  unescaped, and decoding counts three elements for two fields.
\<close>

lemma empty_list_round_trip_fails:
  "option_to_string_Vector option_to_string_bool [] = '''' \<and>
   option_from_string_Vector option_from_string_bool False
     (option_to_string_Vector option_to_string_bool []) [] =
     ([], Inl (runtime_error ''boolean values are either true, yes, false or no''))"
  by (simp add: bool_eval)

lemma empty_map_round_trip_fails:
  "option_to_string_HashMap option_to_string_int option_to_string_bool [] = '''' \<and>
   option_from_string_HashMap option_from_string_int option_from_string_bool 0 False
     (option_to_string_HashMap option_to_string_int option_to_string_bool []) [] =
     ([], Inl (runtime_error ''map option expects key=value''))"
  by (simp add: option_to_string_HashMap_def option_from_string_HashMap_def separators)

lemma nested_tuple_round_trip_fails:
  "option_to_string_tuple
     [option_to_string_tuple [option_to_string_bool, option_to_string_bool],
      option_to_string_tuple [option_to_string_bool]]
     [[True, False], [True]] = ''true|false|true'' \<and>
   option_from_string_tuple
     [option_from_string_tuple [option_from_string_bool, option_from_string_bool],
      option_from_string_tuple [option_from_string_bool]]
     ''true|false|true'' [[False, False], [False]] =
     ([[False, False], [False]], Inl (runtime_error ''to many elements in tuple''))"
  by (simp add: option_to_string_tuple_def option_from_string_tuple_def
      option_to_string_bool_def separators)

subsection \<open>Additive merge of an \<open>int\<close>\<close>

text \<open>
  C2, as the specification states it: on an \<open>int\<close> option holding 5, \<open>add("3")\<close> sets the
  value to 10 and returns true. The code adds the parsed delta: the value becomes 8.
\<close>

theorem int_add_counterexample: "option_add_int 5 ''3'' \<noteq> (10, Inr True)"
  by (simp add: option_add_int_def str_to_int_three)

text \<open>
  C2, amended: on an \<open>int\<close> option holding 5, \<open>add("3")\<close> sets the value to 8 and returns
  true, and \<open>add("0")\<close> leaves the value at 5 and returns false. In general \<open>add\<close> parses
  the string as a signed delta, adds it to the value in place (as 32-bit \<open>int\<close> addition)
  and returns whether the delta was non-zero.
\<close>

theorem int_add:
  "option_add_int 5 ''3'' = (8, Inr True) \<and>
   option_add_int 5 ''0'' = (5, Inr False) \<and>
   (\<forall>opt str val. str_to_int str = Inr val \<longrightarrow>
      option_add_int opt str = (opt + val, Inr (val \<noteq> 0)) \<and>
      sint (opt + val) = signed_take_bit 31 (sint opt + sint val))"
  by (simp add: option_add_int_def str_to_int_eval sint_word_ariths)

theorem int_add_witness:
  "str_to_int ''3'' = Inr 3 \<and> option_add_int 5 ''3'' = (5 + 3, Inr ((3 :: cint) \<noteq> 0))"
  using int_add [THEN conjunct2, THEN conjunct2, rule_format, OF str_to_int_three, of 5]
    str_to_int_three by blast

subsection \<open>Tuple arity\<close>

text \<open>
  C3: the arity check of tuple decode, on a tuple of an \<open>int\<close> and a \<open>bool\<close>. Three
  elements for two fields throw \<open>runtime_error\<close> with the message
  \<open>to many elements in tuple\<close> (the source's spelling), one element throws
  \<open>not enough elements in tuple\<close>, both leaving the tuple as it was, and two elements
  decode into the fields by position.
\<close>

theorem tuple_arity_messages:
  "option_from_string_tuple [option_from_string_scalar, option_from_string_scalar]
     ''1|true|3'' [IntOpt 0, BoolOpt False] =
     ([IntOpt 0, BoolOpt False], Inl (runtime_error ''to many elements in tuple'')) \<and>
   option_from_string_tuple [option_from_string_scalar, option_from_string_scalar]
     ''1'' [IntOpt 0, BoolOpt False] =
     ([IntOpt 0, BoolOpt False], Inl (runtime_error ''not enough elements in tuple'')) \<and>
   option_from_string_tuple [option_from_string_scalar, option_from_string_scalar]
     ''1|true'' [IntOpt 0, BoolOpt False] = ([IntOpt 1, BoolOpt True], Inr ())"
  by (simp add: option_from_string_tuple_def separators option_from_string_int_def
      option_from_string_bool_def str_to_int_eval)

subsection \<open>What a failed call leaves behind\<close>

text \<open>
  C4, as the specification states it: a decode that fails partway leaves the destination
  unchanged. Decoding \<open>false:maybe\<close> into a list of \<open>bool\<close> that holds \<open>[true]\<close> throws
  at the second element and leaves \<open>[false]\<close> in the destination.
\<close>

theorem list_decode_not_atomic_counterexample:
  "option_from_string_Vector option_from_string_bool False ''false:maybe'' [True] =
     ([False], Inl (runtime_error ''boolean values are either true, yes, false or no'')) \<and>
   [False] \<noteq> [True]"
  by (simp add: bool_list_decode_fails)

text \<open>
  C4, amended. A failed \<open>add\<close> on a list or on a prefixed list leaves the destination
  unchanged, and so does a tuple decode that fails the arity check. A failed decode of a
  list or of a map does not: the destination was cleared first and holds afterwards what
  decoding the elements before the failing one gives. With \<open>n\<close> the index of the failing
  element, the destination is the result of the loop on the first \<open>n\<close> elements, started
  from the empty container, and element \<open>n\<close> is the one that throws the exception \<open>e\<close> of
  the call: for a list its decode throws \<open>e\<close>; for a map the entry does not split into two
  parts on \<open>=\<close> and \<open>e\<close> is the error of line 132, or its key throws \<open>e\<close>, or its key
  decodes and its value throws \<open>e\<close>.
\<close>

theorem failed_call_destination:
  "(option_add_Vector tf td opt str = (dst, Inl e) \<longrightarrow> dst = opt) \<and>
   (option_add_PrefixedList tf td popt str = (pdst, Inl e) \<longrightarrow> pdst = popt) \<and>
   (length (split str tuple_separator backslash) \<noteq> length fs \<longrightarrow>
      fst (option_from_string_tuple fs str topt) = topt \<and>
      isl (snd (option_from_string_tuple fs str topt))) \<and>
   (option_from_string_Vector tf td str opt = (dst, Inl e) \<longrightarrow>
      (\<exists>n<length (split str list_separator backslash).
         Vector_from_string_loop tf td (take n (split str list_separator backslash)) [] =
           (dst, Inr ()) \<and>
         snd (tf (split str list_separator backslash ! n) td) = Inl e)) \<and>
   (option_from_string_HashMap kf vf kd vd str mopt = (mdst, Inl e) \<longrightarrow>
      (\<exists>n<length (split str list_separator backslash).
         HashMap_from_string_loop kf vf kd vd (take n (split str list_separator backslash)) [] =
           (mdst, Inr ()) \<and>
         ((length (split (split str list_separator backslash ! n) (CHR ''='') backslash) \<noteq> 2 \<and>
           e = runtime_error ''map option expects key=value'') \<or>
          (length (split (split str list_separator backslash ! n) (CHR ''='') backslash) = 2 \<and>
           snd (kf (split (split str list_separator backslash ! n) (CHR ''='') backslash ! 0) kd) = Inl e) \<or>
          (length (split (split str list_separator backslash ! n) (CHR ''='') backslash) = 2 \<and>
           snd (kf (split (split str list_separator backslash ! n) (CHR ''='') backslash ! 0) kd) = Inr () \<and>
           snd (vf (split (split str list_separator backslash ! n) (CHR ''='') backslash ! 1) vd) = Inl e))))"
proof (intro conjI impI)
  assume "option_add_Vector tf td opt str = (dst, Inl e)"
  then show "dst = opt" by (rule option_add_Vector_throws)
next
  assume "option_add_PrefixedList tf td popt str = (pdst, Inl e)"
  then show "pdst = popt" by (rule option_add_PrefixedList_throws)
next
  assume "length (split str tuple_separator backslash) \<noteq> length fs"
  then show "fst (option_from_string_tuple fs str topt) = topt"
    by (simp add: option_from_string_tuple_arity)
next
  assume "length (split str tuple_separator backslash) \<noteq> length fs"
  then show "isl (snd (option_from_string_tuple fs str topt))"
    by (simp add: option_from_string_tuple_arity)
next
  assume "option_from_string_Vector tf td str opt = (dst, Inl e)"
  then have "Vector_from_string_loop tf td (split str list_separator backslash) [] = (dst, Inl e)"
    by (simp add: option_from_string_Vector_def)
  then show "\<exists>n<length (split str list_separator backslash).
         Vector_from_string_loop tf td (take n (split str list_separator backslash)) [] =
           (dst, Inr ()) \<and>
         snd (tf (split str list_separator backslash ! n) td) = Inl e"
    by (rule Vector_from_string_loop_throws)
next
  assume "option_from_string_HashMap kf vf kd vd str mopt = (mdst, Inl e)"
  then have "HashMap_from_string_loop kf vf kd vd (split str list_separator backslash) [] =
      (mdst, Inl e)"
    by (simp add: option_from_string_HashMap_def)
  then show "\<exists>n<length (split str list_separator backslash).
         HashMap_from_string_loop kf vf kd vd (take n (split str list_separator backslash)) [] =
           (mdst, Inr ()) \<and>
         ((length (split (split str list_separator backslash ! n) (CHR ''='') backslash) \<noteq> 2 \<and>
           e = runtime_error ''map option expects key=value'') \<or>
          (length (split (split str list_separator backslash ! n) (CHR ''='') backslash) = 2 \<and>
           snd (kf (split (split str list_separator backslash ! n) (CHR ''='') backslash ! 0) kd) = Inl e) \<or>
          (length (split (split str list_separator backslash ! n) (CHR ''='') backslash) = 2 \<and>
           snd (kf (split (split str list_separator backslash ! n) (CHR ''='') backslash ! 0) kd) = Inr () \<and>
           snd (vf (split (split str list_separator backslash ! n) (CHR ''='') backslash ! 1) vd) = Inl e))"
    by (rule HashMap_from_string_loop_failing_entry)
qed

theorem failed_call_destination_witness:
  "option_add_Vector option_from_string_bool False [True] ''yes:maybe'' =
     ([True], Inl (runtime_error ''boolean values are either true, yes, false or no'')) \<and>
   option_add_PrefixedList option_from_string_bool False
       \<lparr>prefix = 7 :: size_t, list = [True]\<rparr> ''yes:maybe'' =
     (\<lparr>prefix = 7, list = [True]\<rparr>,
      Inl (runtime_error ''boolean values are either true, yes, false or no'')) \<and>
   length (split ''1|true|3'' tuple_separator backslash) \<noteq>
     length [option_from_string_scalar, option_from_string_scalar] \<and>
   fst (option_from_string_tuple [option_from_string_scalar, option_from_string_scalar]
          ''1|true|3'' [IntOpt 0, BoolOpt False]) = [IntOpt 0, BoolOpt False] \<and>
   option_from_string_Vector option_from_string_bool False ''false:maybe'' [True] =
     ([False], Inl (runtime_error ''boolean values are either true, yes, false or no'')) \<and>
   (\<exists>n<length (split ''false:maybe'' list_separator backslash).
      Vector_from_string_loop option_from_string_bool False
        (take n (split ''false:maybe'' list_separator backslash)) [] = ([False], Inr ()) \<and>
      snd (option_from_string_bool (split ''false:maybe'' list_separator backslash ! n) False) =
        Inl (runtime_error ''boolean values are either true, yes, false or no'')) \<and>
   option_from_string_HashMap option_from_string_int option_from_string_bool 0 False
       ''1=true:2'' [(5, True)] =
     ([(1, True)], Inl (runtime_error ''map option expects key=value'')) \<and>
   (\<exists>n<length (split ''1=true:2'' list_separator backslash).
      HashMap_from_string_loop option_from_string_int option_from_string_bool 0 False
        (take n (split ''1=true:2'' list_separator backslash)) [] = ([(1, True)], Inr ()) \<and>
      ((length (split (split ''1=true:2'' list_separator backslash ! n) (CHR ''='') backslash)
          \<noteq> 2 \<and>
        runtime_error ''map option expects key=value'' =
          runtime_error ''map option expects key=value'') \<or>
       (length (split (split ''1=true:2'' list_separator backslash ! n) (CHR ''='') backslash)
          = 2 \<and>
        snd (option_from_string_int
               (split (split ''1=true:2'' list_separator backslash ! n) (CHR ''='') backslash ! 0)
               0) = Inl (runtime_error ''map option expects key=value'')) \<or>
       (length (split (split ''1=true:2'' list_separator backslash ! n) (CHR ''='') backslash)
          = 2 \<and>
        snd (option_from_string_int
               (split (split ''1=true:2'' list_separator backslash ! n) (CHR ''='') backslash ! 0)
               0) = Inr () \<and>
        snd (option_from_string_bool
               (split (split ''1=true:2'' list_separator backslash ! n) (CHR ''='') backslash ! 1)
               False) = Inl (runtime_error ''map option expects key=value''))))"
proof -
  let ?e = "runtime_error ''boolean values are either true, yes, false or no''"
  have h1: "option_add_Vector option_from_string_bool False [True] ''yes:maybe'' = ([True], Inl ?e)"
    by (simp add: option_add_Vector_def bool_eval)
  have h2: "option_add_PrefixedList option_from_string_bool False
       \<lparr>prefix = 7 :: size_t, list = [True]\<rparr> ''yes:maybe'' =
     (\<lparr>prefix = 7, list = [True]\<rparr>, Inl ?e)"
    by (simp add: option_add_PrefixedList_def option_add_Vector_def bool_eval)
  have h3: "length (split ''1|true|3'' tuple_separator backslash) \<noteq>
     length [option_from_string_scalar, option_from_string_scalar]"
    by (simp add: separators)
  have h4: "option_from_string_Vector option_from_string_bool False ''false:maybe'' [True] =
     ([False], Inl ?e)"
    by (rule bool_list_decode_fails)
  have h5: "option_from_string_HashMap option_from_string_int option_from_string_bool 0 False
       ''1=true:2'' [(5, True)] =
     ([(1, True)], Inl (runtime_error ''map option expects key=value''))"
    by (simp add: option_from_string_HashMap_def separators option_from_string_int_def
        option_from_string_bool_def str_to_int_eval)
  note c1 = failed_call_destination
    [where tf = option_from_string_bool and td = False and str = "''yes:maybe''"
       and opt = "[True]" and dst = "[True]" and e = ?e,
     THEN conjunct1, rule_format, OF h1]
  note c2 = failed_call_destination
    [where tf = option_from_string_bool and td = False and str = "''yes:maybe''"
       and popt = "\<lparr>prefix = 7 :: size_t, list = [True]\<rparr>"
       and pdst = "\<lparr>prefix = 7 :: size_t, list = [True]\<rparr>" and e = ?e,
     THEN conjunct2, THEN conjunct1, rule_format, OF h2]
  note c3 = failed_call_destination
    [where str = "''1|true|3''" and fs = "[option_from_string_scalar, option_from_string_scalar]"
       and topt = "[IntOpt 0, BoolOpt False]",
     THEN conjunct2, THEN conjunct2, THEN conjunct1, rule_format, OF h3, THEN conjunct1]
  note c4 = failed_call_destination
    [where tf = option_from_string_bool and td = False and str = "''false:maybe''"
       and opt = "[True]" and dst = "[False]" and e = ?e,
     THEN conjunct2, THEN conjunct2, THEN conjunct2, THEN conjunct1, rule_format, OF h4]
  note c5 = failed_call_destination
    [where kf = option_from_string_int and vf = option_from_string_bool and kd = 0
       and vd = False and str = "''1=true:2''" and mopt = "[(5, True)]"
       and mdst = "[(1, True)]" and e = "runtime_error ''map option expects key=value''",
     THEN conjunct2, THEN conjunct2, THEN conjunct2, THEN conjunct2, rule_format, OF h5]
  from h1 c1 h2 c2 h3 c3 h4 c4 h5 c5 show ?thesis by blast
qed

subsection \<open>Decoding a prefixed list\<close>

text \<open>
  C5, as the specification states it, cuts at the first unescaped \<open>:\<close>. On the input
  \<open>true\<close>, backslash, \<open>:false:true\<close> with a prefix of type list of lists of \<open>bool\<close> the
  two differ. The first \<open>:\<close> is the escaped one: the code decodes the prefix from
  \<open>true\<close> followed by the backslash and throws. The first unescaped \<open>:\<close> is the second
  one: the specification's reading decodes the prefix from the escaped element and the
  list from \<open>true\<close>, and succeeds.
\<close>

theorem prefixed_decode_unescaped_counterexample:
  "option_from_string_PrefixedList
     (option_from_string_Vector (option_from_string_Vector option_from_string_bool False) [])
     option_from_string_bool False
     (''true'' @ [backslash] @ '':false:true'') \<lparr>prefix = [], list = []\<rparr> =
     (\<lparr>prefix = [], list = []\<rparr>,
      Inl (runtime_error ''boolean values are either true, yes, false or no'')) \<and>
   option_from_string_PrefixedList_spec
     (option_from_string_Vector (option_from_string_Vector option_from_string_bool False) [])
     option_from_string_bool False
     (''true'' @ [backslash] @ '':false:true'') \<lparr>prefix = [], list = []\<rparr> =
     (\<lparr>prefix = [[True, False]], list = [True]\<rparr>, Inr ())"
  by (simp add: option_from_string_PrefixedList_def option_from_string_PrefixedList_spec_def
      find_str_def bool_eval)

text \<open>
  C5, amended: the decoder cuts the input at its first \<open>:\<close>, escaped or not. With the
  input \<open>a:b\<close>, where \<open>a\<close> has no \<open>:\<close>, the prefix is decoded from \<open>a\<close> and, if that
  succeeds, the list member is decoded from \<open>b\<close>. With no \<open>:\<close> in the input the prefix is
  decoded from the whole input, the list member keeps its value, and the outcome is that
  of decoding the prefix: no error of its own is raised.
\<close>

theorem prefixed_decode_first_colon:
  "(CHR '':'' \<notin> set a \<longrightarrow>
      option_from_string_PrefixedList pf tf td (a @ CHR '':'' # b) opt =
        (case pf a (prefix opt) of
           (p, Inl e) \<Rightarrow> (opt\<lparr>prefix := p\<rparr>, Inl e)
         | (p, Inr u) \<Rightarrow>
             (case option_from_string_Vector tf td b (list opt) of
                (l, r) \<Rightarrow> (opt\<lparr>prefix := p, list := l\<rparr>, r)))) \<and>
   (CHR '':'' \<notin> set str \<longrightarrow>
      option_from_string_PrefixedList pf tf td str opt =
        (case pf str (prefix opt) of (p, r) \<Rightarrow> (opt\<lparr>prefix := p\<rparr>, r)))"
  by (simp add: PrefixedList_decode_at_colon PrefixedList_decode_no_colon)

theorem prefixed_decode_first_colon_witness:
  "CHR '':'' \<notin> set ''7'' \<and>
   option_from_string_PrefixedList option_from_string_size_t option_from_string_bool False
     (''7'' @ CHR '':'' # ''yes:no'') \<lparr>prefix = 0, list = [False]\<rparr> =
     (\<lparr>prefix = 7, list = [True, False]\<rparr>, Inr ()) \<and>
   option_from_string_PrefixedList option_from_string_size_t option_from_string_bool False
     ''7'' \<lparr>prefix = 0, list = [False]\<rparr> =
     (\<lparr>prefix = 7, list = [False]\<rparr>, Inr ())"
proof -
  have h: "CHR '':'' \<notin> set ''7''" by simp
  have p: "option_from_string_size_t ''7'' 0 = (7, Inr ())"
    by (simp add: option_from_string_size_t_def str_to_int_eval)
  have l: "option_from_string_Vector option_from_string_bool False ''yes:no'' [False] =
      ([True, False], Inr ())"
    by (simp add: bool_eval)
  note c1 = prefixed_decode_first_colon
    [where a = "''7''" and b = "''yes:no''" and pf = option_from_string_size_t
       and tf = option_from_string_bool and td = False
       and opt = "\<lparr>prefix = 0, list = [False]\<rparr>",
     THEN conjunct1, rule_format, OF h]
  note c2 = prefixed_decode_first_colon
    [where str = "''7''" and pf = option_from_string_size_t
       and tf = option_from_string_bool and td = False
       and opt = "\<lparr>prefix = 0, list = [False]\<rparr>",
     THEN conjunct2, rule_format, OF h]
  from c1 c2 h p l show ?thesis by simp
qed

subsection \<open>Decoding a map\<close>

text \<open>
  C6: map decode replaces the destination. Whenever every entry of the input splits into
  a key and a value that decode, the call succeeds with a map that does not depend on the
  destination's former content: its keys are exactly the keys of the input, and each key
  has the value of its last occurrence in the input (\<open>map_of (rev pairs)\<close> looks the
  last occurrence up first).
\<close>

theorem map_decode_replaces:
  assumes "list_all2 (\<lambda>elem kv. \<exists>a b. split elem (CHR ''='') backslash = [a, b] \<and>
              kf a kd = (fst kv, Inr ()) \<and> vf b vd = (snd kv, Inr ()))
            (split str list_separator backslash) pairs"
  shows "\<exists>m. option_from_string_HashMap kf vf kd vd str opt = (m, Inr ()) \<and>
             distinct (map fst m) \<and>
             map_of m = map_of (rev pairs) \<and>
             fst ` set m = fst ` set pairs \<and>
             (\<forall>i < length pairs.
                (\<forall>j. i < j \<and> j < length pairs \<longrightarrow> fst (pairs ! j) \<noteq> fst (pairs ! i)) \<longrightarrow>
                pairs ! i \<in> set m)"
proof -
  from HashMap_from_string_loop_ok [where kf = kf and kd = kd and vf = vf and vd = vd and acc = "[]", OF assms] obtain m where
    m: "option_from_string_HashMap kf vf kd vd str opt = (m, Inr ())"
    and mo: "map_of m = map_of (rev pairs)" and di: "distinct (map fst m)"
    by (auto simp: option_from_string_HashMap_def)
  have "dom (map_of m) = dom (map_of (rev pairs))" using mo by simp
  then have keys: "fst ` set m = fst ` set pairs" by (simp add: dom_map_of_conv_image_fst)
  have last: "pairs ! i \<in> set m"
    if "i < length pairs"
      and "\<forall>j. i < j \<and> j < length pairs \<longrightarrow> fst (pairs ! j) \<noteq> fst (pairs ! i)" for i
  proof -
    from map_of_rev_last [OF that] mo
    have "map_of m (fst (pairs ! i)) = Some (snd (pairs ! i))" by simp
    then have "(fst (pairs ! i), snd (pairs ! i)) \<in> set m" by (rule map_of_SomeD)
    then show ?thesis by simp
  qed
  from m di mo keys last show ?thesis by blast
qed

theorem map_decode_replaces_witness:
  "list_all2 (\<lambda>elem kv. \<exists>a b. split elem (CHR ''='') backslash = [a, b] \<and>
              option_from_string_int a 0 = (fst kv, Inr ()) \<and>
              option_from_string_bool b False = (snd kv, Inr ()))
     (split ''1=true:2=false:1=false'' list_separator backslash)
     [(1, True), (2, False), (1, False)] \<and>
   option_from_string_HashMap option_from_string_int option_from_string_bool 0 False
     ''1=true:2=false:1=false'' [(5, True)] = ([(1, False), (2, False)], Inr ())"
proof -
  have h: "list_all2 (\<lambda>elem kv. \<exists>a b. split elem (CHR ''='') backslash = [a, b] \<and>
              option_from_string_int a 0 = (fst kv, Inr ()) \<and>
              option_from_string_bool b False = (snd kv, Inr ()))
     (split ''1=true:2=false:1=false'' list_separator backslash)
     [(1, True), (2, False), (1, False)]"
    by (simp add: separators option_from_string_int_def option_from_string_bool_def str_to_int_eval)
  from map_decode_replaces [where kf = option_from_string_int and kd = 0
      and vf = option_from_string_bool and vd = False and opt = "[(5, True)]", OF h] obtain m where
    m: "option_from_string_HashMap option_from_string_int option_from_string_bool 0 False
          ''1=true:2=false:1=false'' [(5, True)] = (m, Inr ())"
    by blast
  have "option_from_string_HashMap option_from_string_int option_from_string_bool 0 False
          ''1=true:2=false:1=false'' [(5, True)] = ([(1, False), (2, False)], Inr ())"
    by (simp add: option_from_string_HashMap_def separators option_from_string_int_def
        option_from_string_bool_def str_to_int_eval)
  with h m show ?thesis by blast
qed

subsection \<open>Adding to a list\<close>

text \<open>
  C7: list \<open>add\<close> decodes the string into a temporary vector \<open>vec\<close>; the destination
  afterwards is its former content followed by the elements of \<open>vec\<close> in order (nothing
  is cleared), and the call returns true exactly when \<open>vec\<close> is not empty.
\<close>

theorem vector_add_appends:
  "option_from_string_Vector tf td str tmp = (vec, Inr ()) \<Longrightarrow>
   option_add_Vector tf td opt str = (opt @ vec, Inr (vec \<noteq> []))"
  by (simp add: option_add_Vector_def option_from_string_Vector_def copy_back_inserter_append)

theorem vector_add_appends_witness:
  "option_from_string_Vector option_from_string_bool False ''yes:no'' [] = ([True, False], Inr ()) \<and>
   option_add_Vector option_from_string_bool False [False] ''yes:no'' = ([False] @ [True, False], Inr ([True, False] \<noteq> []))"
proof -
  have h: "option_from_string_Vector option_from_string_bool False ''yes:no'' [] = ([True, False], Inr ())"
    by (simp add: option_from_string_Vector_def option_from_string_bool_def separators)
  from vector_add_appends [OF h, of "[False]"] h show ?thesis by blast
qed

subsection \<open>Adding to a \<open>bool\<close>\<close>

text \<open>
  C8: \<open>add\<close> on a \<open>bool\<close> option throws, for every input string and every value of the
  option, the \<open>runtime_error\<close> of the catch-all overload (the specification's
  UnsupportedOperation), and leaves the option as it was.
\<close>

theorem bool_add_unsupported:
  "option_add_bool opt str =
     (opt, Inl (runtime_error ''no add operation supported for this option type''))"
  by (simp add: option_add_bool_def option_add_WorstMatch_def)

subsection \<open>Adding to a prefixed list\<close>

text \<open>
  C9: \<open>add\<close> on a prefixed list, for every value and every string, whether it returns or
  throws: the prefix is what it was, the list member is what the list's own \<open>add\<close> makes
  of it on the same string, and the outcome (return value or exception) is that of the
  list's \<open>add\<close>.
\<close>

theorem prefixed_add_only_list:
  "prefix (fst (option_add_PrefixedList tf td opt str)) = prefix opt \<and>
   list (fst (option_add_PrefixedList tf td opt str)) = fst (option_add_Vector tf td (list opt) str) \<and>
   snd (option_add_PrefixedList tf td opt str) = snd (option_add_Vector tf td (list opt) str)"
  by (simp add: option_add_PrefixedList_def split: prod.split)

subsection \<open>Decoding a \<open>size_t\<close>\<close>

text \<open>
  C10: decoding a \<open>size_t\<close> goes through the signed parser with no sign check. Whatever
  \<open>int\<close> the parser returns is stored converted modulo \<open>2 ^ 64\<close>, and no error is raised;
  \<open>"-1"\<close> is accepted and stores \<open>2 ^ 64 - 1\<close>.
\<close>

theorem size_from_string_signed:
  "option_from_string_size_t ''-1'' opt = (18446744073709551615, Inr ()) \<and>
   (\<forall>str v. str_to_int str = Inr v \<longrightarrow>
      option_from_string_size_t str opt = (scast v, Inr ()) \<and>
      uint (scast v :: size_t) = sint v mod 2 ^ 64)"
  by (simp add: option_from_string_size_t_def uint_scast_size str_to_int_minus_one)

theorem size_from_string_signed_witness:
  "str_to_int ''-1'' = Inr (- 1) \<and>
   option_from_string_size_t ''-1'' 0 = (scast (- 1 :: cint), Inr ()) \<and>
   uint (scast (- 1 :: cint) :: size_t) = sint (- 1 :: cint) mod 2 ^ 64"
  using size_from_string_signed [of 0, THEN conjunct2, rule_format, OF str_to_int_minus_one]
    str_to_int_minus_one by blast

end
